theory Spec2Isabelle
  imports Complex_Main "HOL-Library.AList" "HOL-Library.Char_ord" "HOL-Library.List_Lexorder"
begin

section \<open>Data model of \<open>groundtruthstudy.py\<close>\<close>

text \<open>
  Python exceptions raised inside \<open>GroundTruthStudy\<close> or by the primitives it calls.
  \<open>UsageError\<close> is the bare \<open>Exception("Pass 'rec_name' parameter ...")\<close>,
  \<open>ValueError\<close> is what \<open>list.index\<close> raises on a missing element (and
  \<open>pd.concat\<close> on an empty list), \<open>AssertionError\<close> is the failed
  \<open>assert self.comparisons is not None, 'run_comparisons first'\<close>.
\<close>

datatype error =
    UsageError
  | ValueError
  | AssertionError
  | KeyError
  | FileNotFoundError
  | TypeError

text \<open>A sorting extractor: its unit ids and, per unit, its spike train.\<close>

record sorting =
  get_unit_ids :: "int list"
  spike_trains :: "(int \<times> nat list) list"

type_synonym recording = "int list list"

type_synonym pair = "string \<times> string"

text \<open>
  The study folder on persistent storage. The object only holds the path; the content
  behind the path is what the methods read and write, so the content is the state.
  File-like areas are association lists from file name to content; an area that may be
  absent as a directory is optional.
\<close>

record folder =
  names_txt :: "string list"
  ground_truth_dir :: "(string \<times> sorting) list"
  recordings_dir :: "(string \<times> recording) list"
  sortings_dir :: "(string \<times> string \<times> sorting) list"
  run_times_dir :: "(pair \<times> rat) list"
  metrics_dir :: "(string \<times> string) list option"
  tables_dir :: "(string \<times> string) list option"

text \<open>
  Modelled from the spec: the helpers of \<open>studytools\<close> are imported by the source
  but are not part of it. \<open>get_rec_names\<close> returns the known case names,
  \<open>iter_computed_sorting\<close> yields every computed output as (case, engine, sorting) in
  the order the storage lists them, \<open>iter_computed_names\<close> yields the same pairs without
  loading the sortings, \<open>collect_run_times\<close> returns the recorded durations per pair and
  \<open>get_one_recording\<close> loads the recording of one case.
\<close>

definition get_rec_names :: "folder \<Rightarrow> string list" where
  "get_rec_names f = names_txt f"

definition iter_computed_sorting :: "folder \<Rightarrow> (string \<times> string \<times> sorting) list" where
  "iter_computed_sorting f = sortings_dir f"

definition iter_computed_names :: "folder \<Rightarrow> pair list" where
  "iter_computed_names f = map (\<lambda>(r, s, _). (r, s)) (sortings_dir f)"

definition collect_run_times :: "folder \<Rightarrow> (pair \<times> rat) list" where
  "collect_run_times f = run_times_dir f"


text \<open>
  Modelled from the spec: \<open>se.NpzSortingExtractor(study_folder / 'ground_truth' / file)\<close>
  loads the ground truth stored under that file name and fails when there is none.
\<close>

definition NpzSortingExtractor :: "folder \<Rightarrow> string \<Rightarrow> error + sorting" where
  "NpzSortingExtractor f filename =
     (case map_of (ground_truth_dir f) filename of
        None \<Rightarrow> Inl FileNotFoundError
      | Some s \<Rightarrow> Inr s)"

text \<open>\<open>np.unique(xs).tolist()\<close>: the distinct elements of \<open>xs\<close>, sorted.\<close>

definition np_unique :: "string list \<Rightarrow> string list" where
  "np_unique xs = sort (remdups xs)"

text \<open>
  The \<open>GroundTruthStudy\<close> object. The constructor assigns \<open>None\<close> to the three
  scanned lists and calls \<open>scan_folder\<close> before it returns, so no method ever reads
  them as \<open>None\<close>; they are plain lists here. \<open>comparisons\<close> and
  \<open>exhaustive_gt\<close> stay \<open>None\<close> until \<open>run_comparisons\<close>. The type \<open>'c\<close> is
  the comparison object returned by \<open>compare_sorter_to_ground_truth\<close>.
\<close>

record 'c study =
  study_folder :: folder
  is_scanned :: bool
  computed_names :: "pair list"
  rec_names :: "string list"
  sorter_names :: "string list"
  comparisons :: "(pair \<times> 'c) list option"
  exhaustive_gt :: "bool option"

section \<open>Scanning and case resolution\<close>

definition scan_folder :: "'c study \<Rightarrow> 'c study" where
  "scan_folder st =
     st\<lparr> rec_names := get_rec_names (study_folder st),
         computed_names := iter_computed_names (study_folder st),
         sorter_names := np_unique (map snd (iter_computed_names (study_folder st))),
         is_scanned := True \<rparr>"

definition init_study :: "folder \<Rightarrow> 'c study" where
  "init_study f =
     (scan_folder \<lparr> study_folder = f, is_scanned = False, computed_names = [],
                    rec_names = [], sorter_names = [], comparisons = None,
                    exhaustive_gt = None \<rparr>)
       \<lparr> comparisons := None, exhaustive_gt := None \<rparr>"

text \<open>
  \<open>_check_rec_name\<close>. The last branch is \<open>self.rec_names[self.rec_names.index(rec_name)]\<close>:
  \<open>index\<close> raises \<open>ValueError\<close> when the name (or \<open>None\<close>) is not in the list and
  otherwise finds an element equal to the name.
\<close>

definition check_rec_name :: "'c study \<Rightarrow> string option \<Rightarrow> 'c study \<times> (error + string)" where
  "check_rec_name st rec_name =
     (let st1 = (if \<not> is_scanned st then scan_folder st else st) in
      if length (rec_names st1) > 1 \<and> rec_name = None then (st1, Inl UsageError)
      else if length (rec_names st1) = 1 then (st1, Inr (hd (rec_names st1)))
      else (case rec_name of
              None \<Rightarrow> (st1, Inl ValueError)
            | Some n \<Rightarrow> if n \<in> set (rec_names st1) then (st1, Inr n)
                        else (st1, Inl ValueError)))"

definition get_ground_truth :: "'c study \<Rightarrow> string option \<Rightarrow> 'c study \<times> (error + sorting)" where
  "get_ground_truth st rec_name =
     (case check_rec_name st rec_name of
        (st1, Inl e) \<Rightarrow> (st1, Inl e)
      | (st1, Inr n) \<Rightarrow> (st1, NpzSortingExtractor (study_folder st1) (n @ ''.npz'')))"


definition copy_sortings :: "(folder \<Rightarrow> folder) \<Rightarrow> 'c study \<Rightarrow> 'c study" where
  "copy_sortings copy_sortings_to_npz st =
     scan_folder (st\<lparr> study_folder := copy_sortings_to_npz (study_folder st) \<rparr>)"

section \<open>Dispatching runs\<close>

datatype mode = Keep | Overwrite

type_synonym kwargs = "(string \<times> string) list"

text \<open>
  \<open>run_sorters\<close> delegates to \<open>run_study_sorters\<close> of \<open>studytools\<close>, which is not part
  of the source and is a parameter here. Its mode argument is optional: \<open>None\<close> stands
  for a call that does not pass it. The source passes the folder, the sorter list and
  the keywords \<open>sorter_params\<close>, \<open>engine\<close>, \<open>engine_kargs\<close> and \<open>verbose\<close>.
\<close>

definition run_sorters ::
  "(folder \<Rightarrow> string list \<Rightarrow> kwargs \<Rightarrow> mode option \<Rightarrow> string \<Rightarrow> kwargs \<Rightarrow> bool \<Rightarrow> folder) \<Rightarrow>
   'c study \<Rightarrow> string list \<Rightarrow> kwargs \<Rightarrow> mode \<Rightarrow> string \<Rightarrow> kwargs \<Rightarrow> bool \<Rightarrow> 'c study" where
  "run_sorters run_study_sorters st sorter_list sorter_params mode engine engine_kargs verbose =
     st\<lparr> study_folder :=
           run_study_sorters (study_folder st) sorter_list sorter_params None
             engine engine_kargs verbose \<rparr>"

section \<open>Looking up one output\<close>

fun select_sorting ::
  "string \<Rightarrow> string \<Rightarrow> sorting option \<Rightarrow> (string \<times> string \<times> sorting) list \<Rightarrow> sorting option" where
  "select_sorting sort_name rec_name selected [] = selected"
| "select_sorting sort_name rec_name selected ((r_name, sorter_name, srt) # rest) =
     select_sorting sort_name rec_name
       (if sort_name = sorter_name \<and> r_name = rec_name then Some srt else selected) rest"

definition get_sorting ::
  "'c study \<Rightarrow> string \<Rightarrow> string option \<Rightarrow> 'c study \<times> (error + sorting option)" where
  "get_sorting st sort_name rec_name =
     (case check_rec_name st rec_name of
        (st1, Inl e) \<Rightarrow> (st1, Inl e)
      | (st1, Inr n) \<Rightarrow>
          (st1, Inr (if sort_name \<in> set (sorter_names st1)
                     then select_sorting sort_name n None
                            (iter_computed_sorting (study_folder st1))
                     else None)))"

section \<open>Comparisons\<close>

text \<open>
  The loop of \<open>run_comparisons\<close>. \<open>cmp gt srt ex\<close> is
  \<open>compare_sorter_to_ground_truth(gt_sorting, sorting, exhaustive_gt=ex, **kwargs)\<close>.
  An exception leaves the object as it was when raised, so the state is returned next
  to the error.
\<close>

fun run_comparisons_loop ::
  "(sorting \<Rightarrow> sorting \<Rightarrow> bool \<Rightarrow> 'c) \<Rightarrow> bool \<Rightarrow> 'c study \<Rightarrow>
   (string \<times> string \<times> sorting) list \<Rightarrow> 'c study \<times> error option" where
  "run_comparisons_loop cmp ex st [] = (st, None)"
| "run_comparisons_loop cmp ex st ((r, s, srt) # rest) =
     (case get_ground_truth st (Some r) of
        (st1, Inl e) \<Rightarrow> (st1, Some e)
      | (st1, Inr gt) \<Rightarrow>
          (case comparisons st1 of
             None \<Rightarrow> (st1, Some TypeError)
           | Some m \<Rightarrow>
               run_comparisons_loop cmp ex
                 (st1\<lparr> comparisons := Some (AList.update (r, s) (cmp gt srt ex) m) \<rparr>) rest))"

definition run_comparisons ::
  "(sorting \<Rightarrow> sorting \<Rightarrow> bool \<Rightarrow> 'c) \<Rightarrow> bool \<Rightarrow> 'c study \<Rightarrow> 'c study \<times> error option" where
  "run_comparisons cmp ex st =
     (case run_comparisons_loop cmp ex (st\<lparr> comparisons := Some [] \<rparr>)
             (iter_computed_sorting (study_folder st)) of
        (st1, Some e) \<Rightarrow> (st1, Some e)
      | (st1, None) \<Rightarrow> (st1\<lparr> exhaustive_gt := Some ex \<rparr>, None))"

section \<open>Aggregation\<close>

definition aggregate_run_times :: "'c study \<Rightarrow> error + (pair \<times> rat) list" where
  "aggregate_run_times st = Inr (collect_run_times (study_folder st))"

type_synonym perf = "(string \<times> rat) list"

type_synonym perf_table = "((string \<times> string \<times> int) \<times> perf) list"

text \<open>
  The loop of \<open>aggregate_performance_by_units\<close>: \<open>gp sc\<close> is
  \<open>comp.get_performance(method='by_unit', output='pandas')\<close>, one row per ground-truth
  unit id. Each frame gets the case and engine name and is appended to the list.
\<close>

fun perf_loop ::
  "('c \<Rightarrow> (int \<times> perf) list) \<Rightarrow> (pair \<times> 'c) list \<Rightarrow> (string \<times> string \<times> sorting) list \<Rightarrow>
   error + perf_table list" where
  "perf_loop gp m [] = Inr []"
| "perf_loop gp m ((r, s, srt) # rest) =
     (case map_of m (r, s) of
        None \<Rightarrow> Inl KeyError
      | Some sc \<Rightarrow>
          (case perf_loop gp m rest of
             Inl e \<Rightarrow> Inl e
           | Inr ps \<Rightarrow> Inr (map (\<lambda>(u, p). ((r, s, u), p)) (gp sc) # ps)))"

text \<open>\<open>pd.concat\<close> raises \<open>ValueError\<close> on an empty list of frames.\<close>

definition aggregate_performance_by_units ::
  "('c \<Rightarrow> (int \<times> perf) list) \<Rightarrow> 'c study \<Rightarrow> error + perf_table" where
  "aggregate_performance_by_units gp st =
     (case comparisons st of
        None \<Rightarrow> Inl AssertionError
      | Some m \<Rightarrow>
          (case perf_loop gp m (iter_computed_sorting (study_folder st)) of
             Inl e \<Rightarrow> Inl e
           | Inr ps \<Rightarrow> if ps = [] then Inl ValueError else Inr (concat ps)))"

text \<open>
  The \<open>count_units\<close> frame: its column names and, per index key, the cells by column
  name. A fresh frame holds \<open>NaN\<close> everywhere.
\<close>

datatype cell = NaN | PyNone | Count int

record count_table =
  ct_columns :: "string list"
  ct_rows :: "(pair \<times> (string \<times> cell) list) list"

definition DataFrame :: "pair list \<Rightarrow> string list \<Rightarrow> count_table" where
  "DataFrame idx cols =
     \<lparr> ct_columns = cols, ct_rows = map (\<lambda>k. (k, map (\<lambda>c. (c, NaN)) cols)) idx \<rparr>"

text \<open>\<open>df[c] = v\<close>: every row gets \<open>v\<close> in column \<open>c\<close>; a new column goes last.\<close>

definition set_column :: "string \<Rightarrow> cell \<Rightarrow> count_table \<Rightarrow> count_table" where
  "set_column c v tb =
     \<lparr> ct_columns = (if c \<in> set (ct_columns tb) then ct_columns tb else ct_columns tb @ [c]),
       ct_rows = map (\<lambda>(k, row). (k, AList.update c v row)) (ct_rows tb) \<rparr>"

text \<open>
  \<open>df.loc[k, c] = v\<close> for a column \<open>c\<close> of the frame: every row with key \<open>k\<close> gets
  \<open>v\<close> in column \<open>c\<close>; when no row has the key, the frame is enlarged by one row.
\<close>

definition loc_set :: "pair \<Rightarrow> string \<Rightarrow> cell \<Rightarrow> count_table \<Rightarrow> count_table" where
  "loc_set k c v tb =
     (if k \<in> fst ` set (ct_rows tb)
      then tb\<lparr> ct_rows := map (\<lambda>(k', row). (k', if k' = k then AList.update c v row else row))
                              (ct_rows tb) \<rparr>
      else tb\<lparr> ct_rows := ct_rows tb @
                  [(k, AList.update c v (map (\<lambda>c'. (c', NaN)) (ct_columns tb)))] \<rparr>)"

text \<open>The counting methods of the comparison object, with their optional thresholds.\<close>

record ('c, 't) counters =
  count_well_detected_units :: "'c \<Rightarrow> 't option \<Rightarrow> int"
  count_redundant_units :: "'c \<Rightarrow> 't option \<Rightarrow> int"
  count_overmerged_units :: "'c \<Rightarrow> 't option \<Rightarrow> int"
  count_false_positive_units :: "'c \<Rightarrow> 't option \<Rightarrow> int"
  count_bad_units :: "'c \<Rightarrow> int"

definition base_columns :: "string list" where
  "base_columns = [''num_gt'', ''num_sorter'', ''num_well_detected'', ''num_redundant'',
                   ''num_overmerged'']"

text \<open>The assignments of one iteration of the loop of \<open>aggregate_count_units\<close>.\<close>

definition count_row ::
  "('c, 't) counters \<Rightarrow> 't option \<Rightarrow> 't option \<Rightarrow> 't option \<Rightarrow> bool option \<Rightarrow>
   pair \<Rightarrow> sorting \<Rightarrow> sorting \<Rightarrow> 'c \<Rightarrow> count_table \<Rightarrow> count_table" where
  "count_row cn well_detected_score redundant_score overmerged_score ex k gt srt sc tb =
     (let tb1 = loc_set k ''num_gt'' (Count (int (length (get_unit_ids gt)))) tb;
          tb2 = loc_set k ''num_sorter'' (Count (int (length (get_unit_ids srt)))) tb1;
          tb3 = loc_set k ''num_well_detected''
                  (Count (count_well_detected_units cn sc well_detected_score)) tb2;
          tb4 = loc_set k ''num_redundant''
                  (Count (count_redundant_units cn sc redundant_score)) tb3;
          tb5 = loc_set k ''num_overmerged''
                  (Count (count_overmerged_units cn sc overmerged_score)) tb4
      in if ex = Some True
         then loc_set k ''num_bad'' (Count (count_bad_units cn sc))
                (loc_set k ''num_false_positive''
                   (Count (count_false_positive_units cn sc redundant_score)) tb5)
         else tb5)"

fun count_loop ::
  "('c, 't) counters \<Rightarrow> 't option \<Rightarrow> 't option \<Rightarrow> 't option \<Rightarrow> 'c study \<Rightarrow> count_table \<Rightarrow>
   (string \<times> string \<times> sorting) list \<Rightarrow> 'c study \<times> (error + count_table)" where
  "count_loop cn wd rd om st tb [] = (st, Inr tb)"
| "count_loop cn wd rd om st tb ((r, s, srt) # rest) =
     (case get_ground_truth st (Some r) of
        (st1, Inl e) \<Rightarrow> (st1, Inl e)
      | (st1, Inr gt) \<Rightarrow>
          (case comparisons st1 of
             None \<Rightarrow> (st1, Inl TypeError)
           | Some m \<Rightarrow>
               (case map_of m (r, s) of
                  None \<Rightarrow> (st1, Inl KeyError)
                | Some sc \<Rightarrow>
                    count_loop cn wd rd om st1
                      (count_row cn wd rd om (exhaustive_gt st1) (r, s) gt srt sc tb) rest)))"

definition aggregate_count_units ::
  "('c, 't) counters \<Rightarrow> 'c study \<Rightarrow> 't option \<Rightarrow> 't option \<Rightarrow> 't option \<Rightarrow>
   'c study \<times> (error + count_table)" where
  "aggregate_count_units cn st well_detected_score redundant_score overmerged_score =
     (case comparisons st of
        None \<Rightarrow> (st, Inl AssertionError)
      | Some _ \<Rightarrow>
          (let tb0 = DataFrame (computed_names st) base_columns;
               tb1 = (if exhaustive_gt st = Some True
                      then set_column ''num_bad'' PyNone
                             (set_column ''num_false_positive'' PyNone tb0)
                      else tb0)
           in count_loop cn well_detected_score redundant_score overmerged_score st tb1
                (iter_computed_sorting (study_folder st))))"

text \<open>
  Reading the \<open>count_units\<close> frame: its index as a list, the cell at a key and a
  column, and whether that cell holds a count.
\<close>

definition row_keys :: "count_table \<Rightarrow> pair list" where
  "row_keys tb = map fst (ct_rows tb)"

definition cell_at :: "count_table \<Rightarrow> pair \<Rightarrow> string \<Rightarrow> cell option" where
  "cell_at tb k c = (case map_of (ct_rows tb) k of None \<Rightarrow> None | Some row \<Rightarrow> map_of row c)"

definition populated :: "count_table \<Rightarrow> pair \<Rightarrow> string \<Rightarrow> bool" where
  "populated tb k c = (\<exists>n. cell_at tb k c = Some (Count n))"

text \<open>One column of the frame as (key, cell) pairs, also through a returned result.\<close>

definition column_of :: "count_table \<Rightarrow> string \<Rightarrow> (pair \<times> cell option) list" where
  "column_of tb c = map (\<lambda>k. (k, cell_at tb k c)) (row_keys tb)"

definition result_column ::
  "string \<Rightarrow> 'c study \<times> (error + count_table) \<Rightarrow> error + (pair \<times> cell option) list" where
  "result_column c r = map_sum id (\<lambda>tb. column_of tb c) (snd r)"

record dataframes =
  df_run_times :: "(pair \<times> rat) list"
  df_perf_by_units :: perf_table
  df_count_units :: count_table

text \<open>
  The three \<open>to_csv\<close> calls of \<open>aggregate_dataframes\<close>, after \<open>os.makedirs\<close> of an
  absent tables folder. The writers are parameters: they render a table as file text.
\<close>

definition write_tables ::
  "((pair \<times> rat) list \<Rightarrow> string) \<Rightarrow> (perf_table \<Rightarrow> string) \<Rightarrow> (count_table \<Rightarrow> string) \<Rightarrow>
   dataframes \<Rightarrow> folder \<Rightarrow> folder" where
  "write_tables csv_rt csv_perf csv_count dfs f =
     (let t0 = (case tables_dir f of None \<Rightarrow> [] | Some t \<Rightarrow> t);
          t1 = AList.update ''run_times.csv'' (csv_rt (df_run_times dfs)) t0;
          t2 = AList.update ''perf_by_units.csv'' (csv_perf (df_perf_by_units dfs)) t1;
          t3 = AList.update ''count_units.csv'' (csv_count (df_count_units dfs)) t2
      in f\<lparr> tables_dir := Some t3 \<rparr>)"

definition aggregate_dataframes ::
  "('c, 't) counters \<Rightarrow> ('c \<Rightarrow> (int \<times> perf) list) \<Rightarrow>
   ((pair \<times> rat) list \<Rightarrow> string) \<Rightarrow> (perf_table \<Rightarrow> string) \<Rightarrow> (count_table \<Rightarrow> string) \<Rightarrow>
   'c study \<Rightarrow> bool \<Rightarrow> 't option \<Rightarrow> 't option \<Rightarrow> 't option \<Rightarrow>
   'c study \<times> (error + dataframes)" where
  "aggregate_dataframes cn gp csv_rt csv_perf csv_count st copy_into_folder wd rd om =
     (case aggregate_run_times st of
        Inl e \<Rightarrow> (st, Inl e)
      | Inr rt \<Rightarrow>
          (case aggregate_performance_by_units gp st of
             Inl e \<Rightarrow> (st, Inl e)
           | Inr perfs \<Rightarrow>
               (case aggregate_count_units cn st wd rd om of
                  (st1, Inl e) \<Rightarrow> (st1, Inl e)
                | (st1, Inr cu) \<Rightarrow>
                    (let dfs = \<lparr> df_run_times = rt, df_perf_by_units = perfs,
                                 df_count_units = cu \<rparr>
                     in if copy_into_folder
                        then (st1\<lparr> study_folder :=
                                     write_tables csv_rt csv_perf csv_count dfs
                                       (study_folder st1) \<rparr>, Inr dfs)
                        else (st1, Inr dfs)))))"

section \<open>Metrics cache\<close>





section \<open>Example studies\<close>

text \<open>
  A study with the single case \<open>rec0\<close> (three ground-truth units) and the outputs of
  two engines, listed by the storage as \<open>e2\<close> then \<open>e1\<close>; and the same content
  listed in the other order.
\<close>

definition ex_gt :: sorting where
  "ex_gt = \<lparr> get_unit_ids = [1, 2, 3], spike_trains = [] \<rparr>"

definition ex_sorting1 :: sorting where
  "ex_sorting1 = \<lparr> get_unit_ids = [1, 2], spike_trains = [] \<rparr>"

definition ex_sorting2 :: sorting where
  "ex_sorting2 = \<lparr> get_unit_ids = [1], spike_trains = [] \<rparr>"

definition ex_folder :: folder where
  "ex_folder =
     \<lparr> names_txt = [''rec0''],
       ground_truth_dir = [(''rec0.npz'', ex_gt)],
       recordings_dir = [(''rec0'', [[0]])],
       sortings_dir = [(''rec0'', ''e2'', ex_sorting2), (''rec0'', ''e1'', ex_sorting1)],
       run_times_dir = [((''rec0'', ''e1''), 3), ((''rec0'', ''e2''), 5)],
       metrics_dir = None,
       tables_dir = None \<rparr>"

definition ex_folder_swapped :: folder where
  "ex_folder_swapped =
     ex_folder\<lparr> sortings_dir := [(''rec0'', ''e1'', ex_sorting1), (''rec0'', ''e2'', ex_sorting2)] \<rparr>"

text \<open>A comparison that records what it was given, and constant counters.\<close>

definition ex_cmp :: "sorting \<Rightarrow> sorting \<Rightarrow> bool \<Rightarrow> nat \<times> nat \<times> bool" where
  "ex_cmp gt srt ex = (length (get_unit_ids gt), length (get_unit_ids srt), ex)"

definition ex_counters :: "(nat \<times> nat \<times> bool, nat) counters" where
  "ex_counters =
     \<lparr> count_well_detected_units = (\<lambda>sc t. 1),
       count_redundant_units = (\<lambda>sc t. 0),
       count_overmerged_units = (\<lambda>sc t. 0),
       count_false_positive_units = (\<lambda>sc t. 0),
       count_bad_units = (\<lambda>sc. 0) \<rparr>"

definition ex_gp :: "nat \<times> nat \<times> bool \<Rightarrow> (int \<times> perf) list" where
  "ex_gp sc = map (\<lambda>u. (int u, [(''accuracy'', 1)])) [1 ..< Suc (fst sc)]"

text \<open>The example study after \<open>run_comparisons(exhaustive_gt=True)\<close>.\<close>

definition ex_compared :: "(nat \<times> nat \<times> bool) study" where
  "ex_compared = fst (run_comparisons ex_cmp True (init_study ex_folder))"







text \<open>The swapped example study after \<open>run_comparisons(exhaustive_gt=True)\<close>.\<close>

definition ex_compared_swapped :: "(nat \<times> nat \<times> bool) study" where
  "ex_compared_swapped = fst (run_comparisons ex_cmp True (init_study ex_folder_swapped))"






text \<open>
  The example study, scanned, after which the storage lost the output of \<open>e1\<close>;
  and that study after \<open>run_comparisons(exhaustive_gt=True)\<close>.
\<close>

definition ex_stale :: "(nat \<times> nat \<times> bool) study" where
  "ex_stale = (init_study ex_folder)
     \<lparr> study_folder := ex_folder\<lparr> sortings_dir := [(''rec0'', ''e2'', ex_sorting2)] \<rparr> \<rparr>"

definition ex_stale_compared :: "(nat \<times> nat \<times> bool) study" where
  "ex_stale_compared = fst (run_comparisons ex_cmp True ex_stale)"

section \<open>Case resolution\<close>

lemma check_rec_name_single_None:
  "is_scanned st \<Longrightarrow> rec_names st = [n] \<Longrightarrow> check_rec_name st None = (st, Inr n)"
  by (simp add: check_rec_name_def)

lemma check_rec_name_many_None:
  "is_scanned st \<Longrightarrow> length (rec_names st) \<ge> 2 \<Longrightarrow> check_rec_name st None = (st, Inl UsageError)"
  by (simp add: check_rec_name_def)

lemma check_rec_name_many_unknown:
  "is_scanned st \<Longrightarrow> length (rec_names st) \<noteq> 1 \<Longrightarrow> n \<notin> set (rec_names st) \<Longrightarrow>
   check_rec_name st (Some n) = (st, Inl ValueError)"
  by (simp add: check_rec_name_def)

text \<open>
  C1. With exactly one known case and no explicit name the case is returned, with two or
  more and no explicit name the call fails with the usage error, and an explicit unknown
  name fails with the lookup error only when the study does not hold exactly one case.
  In a study with the single case \<open>rec0\<close> the explicit unknown name \<open>other\<close> is not
  rejected: the call returns \<open>rec0\<close>.
\<close>

theorem check_rec_name_single_ignores_name:
  "check_rec_name
     (init_study \<lparr> names_txt = [''rec0''], ground_truth_dir = [], recordings_dir = [],
                   sortings_dir = [], run_times_dir = [], metrics_dir = None,
                   tables_dir = None \<rparr> :: unit study)
     (Some ''other'')
   = (init_study \<lparr> names_txt = [''rec0''], ground_truth_dir = [], recordings_dir = [],
                    sortings_dir = [], run_times_dir = [], metrics_dir = None,
                    tables_dir = None \<rparr>,
      Inr ''rec0'')"
  by (simp add: check_rec_name_def init_study_def scan_folder_def get_rec_names_def
      iter_computed_names_def np_unique_def)

section \<open>Dispatch\<close>

text \<open>
  C4. \<open>run_sorters\<close> accepts a mode but does not pass it on: whatever the delegate is,
  a dispatch with \<open>overwrite\<close> is the same call, with the same effect on the study
  folder, as a dispatch with \<open>keep\<close>.
\<close>

theorem run_sorters_ignores_mode:
  "run_sorters run_study_sorters st sorter_list sorter_params Overwrite engine engine_kargs verbose
   = run_sorters run_study_sorters st sorter_list sorter_params Keep engine engine_kargs verbose"
  by (simp add: run_sorters_def)

section \<open>Scanning\<close>

lemma np_unique_props:
  "distinct (np_unique xs) \<and> set (np_unique xs) = set xs \<and> sorted (np_unique xs)"
  by (simp add: np_unique_def)




section \<open>Aggregation before any comparison\<close>

text \<open>
  C3. On a freshly constructed study \<open>aggregate_performance_by_units\<close>,
  \<open>aggregate_count_units\<close> and \<open>aggregate_dataframes\<close> fail with the assertion
  \<open>run_comparisons first\<close>, while \<open>aggregate_run_times\<close>, which has no such
  assertion, returns the recorded run times.
\<close>

theorem fresh_study_aggregation:
  "aggregate_run_times (init_study f :: 'c study) = Inr (collect_run_times f) \<and>
   aggregate_performance_by_units gp (init_study f :: 'c study) = Inl AssertionError \<and>
   snd (aggregate_count_units cn (init_study f :: 'c study) wd rd om) = Inl AssertionError \<and>
   snd (aggregate_dataframes cn gp csv_rt csv_perf csv_count (init_study f :: 'c study)
          copy_into_folder wd rd om) = Inl AssertionError"
  by (simp add: aggregate_run_times_def aggregate_performance_by_units_def
      aggregate_count_units_def aggregate_dataframes_def init_study_def scan_folder_def)

text \<open>
  The claim that every aggregation method fails before the first \<open>run_comparisons\<close>
  is false for \<open>aggregate_run_times\<close>: on the fresh example study it returns the table.
\<close>

theorem aggregate_run_times_fresh_counterexample:
  "comparisons (init_study ex_folder :: unit study) = None \<and>
   aggregate_run_times (init_study ex_folder :: unit study)
     = Inr [((''rec0'', ''e1''), 3), ((''rec0'', ''e2''), 5)]"
  by (simp add: aggregate_run_times_def collect_run_times_def init_study_def scan_folder_def
      ex_folder_def)

section \<open>Looking up an output\<close>

lemma select_sorting_no_match:
  "\<forall>(r, s, srt) \<in> set xs. \<not> (sort_name = s \<and> r = n) \<Longrightarrow>
   select_sorting sort_name n sel xs = sel"
  by (induction xs arbitrary: sel) auto

text \<open>
  C9. When the case resolves, an engine name that is not among the known engine names,
  or that has no output for the resolved case, makes \<open>get_sorting\<close> return \<open>None\<close>;
  no error is raised.
\<close>

theorem get_sorting_unknown_engine:
  assumes "check_rec_name st rn = (st1, Inr n)"
      and "sort_name \<notin> set (sorter_names st1) \<or>
           (\<forall>(r, s, srt) \<in> set (iter_computed_sorting (study_folder st1)).
              \<not> (sort_name = s \<and> r = n))"
  shows "get_sorting st sort_name rn = (st1, Inr None)"
  using assms by (auto simp: get_sorting_def select_sorting_no_match)

theorem get_sorting_unknown_engine_witness:
  "check_rec_name (init_study ex_folder :: unit study) (Some ''rec0'')
     = (init_study ex_folder, Inr ''rec0'') \<and>
   ''e3'' \<notin> set (sorter_names (init_study ex_folder :: unit study)) \<and>
   get_sorting (init_study ex_folder :: unit study) ''e3'' (Some ''rec0'')
     = (init_study ex_folder, Inr None)"
proof -
  have h1: "check_rec_name (init_study ex_folder :: unit study) (Some ''rec0'')
              = (init_study ex_folder, Inr ''rec0'')"
    by (simp add: check_rec_name_def init_study_def scan_folder_def ex_folder_def
        get_rec_names_def)
  have h2: "''e3'' \<notin> set (sorter_names (init_study ex_folder :: unit study))"
    by (simp add: init_study_def scan_folder_def ex_folder_def iter_computed_names_def
        np_unique_props)
  from get_sorting_unknown_engine [OF h1 disjI1 [OF h2]] h1 h2 show ?thesis by simp
qed

text \<open>
  The claim that an unknown engine name surfaces a lookup error is false: on the example
  study the call returns \<open>None\<close>.
\<close>

theorem get_sorting_unknown_engine_counterexample:
  "get_sorting (init_study ex_folder :: unit study) ''nosuch'' None
     = (init_study ex_folder, Inr None)"
  by (simp add: get_sorting_def check_rec_name_def init_study_def scan_folder_def
      ex_folder_def get_rec_names_def iter_computed_names_def np_unique_props)

section \<open>Comparisons are replaced wholesale\<close>

lemma check_rec_name_frame:
  assumes "check_rec_name st rn = (st1, x)"
  shows "study_folder st1 = study_folder st \<and> comparisons st1 = comparisons st \<and>
         exhaustive_gt st1 = exhaustive_gt st \<and> is_scanned st1"
  using assms
  by (auto simp: check_rec_name_def scan_folder_def Let_def split: if_splits option.splits)

lemma check_rec_name_scanned:
  "is_scanned st \<Longrightarrow> fst (check_rec_name st rn) = st"
  by (auto simp: check_rec_name_def Let_def split: option.splits)

lemma get_ground_truth_frame:
  assumes "get_ground_truth st rn = (st1, x)"
  shows "study_folder st1 = study_folder st \<and> comparisons st1 = comparisons st \<and>
         exhaustive_gt st1 = exhaustive_gt st \<and> is_scanned st1"
proof -
  obtain s y where c: "check_rec_name st rn = (s, y)" by (cases "check_rec_name st rn")
  with assms have "st1 = s" by (auto simp: get_ground_truth_def split: sum.splits)
  with check_rec_name_frame [OF c] show ?thesis by simp
qed

lemma get_ground_truth_scanned:
  "is_scanned st \<Longrightarrow> fst (get_ground_truth st rn) = st"
  using check_rec_name_scanned [of st rn]
  by (cases "check_rec_name st rn") (auto simp: get_ground_truth_def split: sum.splits)

lemma set_update_cases:
  "(k', c) \<in> set (AList.update k v m) \<Longrightarrow> (k', c) = (k, v) \<or> (k', c) \<in> set m"
  by (induction m) (auto split: if_splits)

lemma run_comparisons_loop_inv:
  assumes "run_comparisons_loop cmp ex st xs = (st', r)" and "comparisons st = Some m"
  shows "\<exists>m'. comparisons st' = Some m' \<and> study_folder st' = study_folder st \<and>
           exhaustive_gt st' = exhaustive_gt st \<and>
           (\<forall>(k, c) \<in> set m'. (k, c) \<in> set m \<or> (\<exists>gt srt. c = cmp gt srt ex)) \<and>
           (distinct (map fst m) \<longrightarrow> distinct (map fst m')) \<and>
           (r = None \<longrightarrow> fst ` set m' = fst ` set m \<union> (\<lambda>(r, s, _). (r, s)) ` set xs)"
  using assms
proof (induction xs arbitrary: st m)
  case Nil
  then show ?case by auto
next
  case (Cons x xs)
  obtain rn sn srt where x: "x = (rn, sn, srt)" by (cases x)
  obtain st1 g where g: "get_ground_truth st (Some rn) = (st1, g)"
    by (cases "get_ground_truth st (Some rn)")
  note fr = get_ground_truth_frame [OF g]
  show ?case
  proof (cases g)
    case (Inl e)
    with Cons.prems x g fr show ?thesis by auto
  next
    case (Inr gt)
    let ?m1 = "AList.update (rn, sn) (cmp gt srt ex) m"
    let ?st2 = "st1\<lparr> comparisons := Some ?m1 \<rparr>"
    from Cons.prems x g Inr fr
    have loop: "run_comparisons_loop cmp ex ?st2 xs = (st', r)" by simp
    have c2: "comparisons ?st2 = Some ?m1" by simp
    from Cons.IH [OF loop c2] obtain m' where
      m': "comparisons st' = Some m'" "study_folder st' = study_folder ?st2"
          "exhaustive_gt st' = exhaustive_gt ?st2"
          "\<forall>(k, c) \<in> set m'. (k, c) \<in> set ?m1 \<or> (\<exists>gt srt. c = cmp gt srt ex)"
          "distinct (map fst ?m1) \<longrightarrow> distinct (map fst m')"
          "r = None \<longrightarrow> fst ` set m' = fst ` set ?m1 \<union> (\<lambda>(r, s, _). (r, s)) ` set xs"
      by blast
    have a: "\<forall>(k, c) \<in> set m'. (k, c) \<in> set m \<or> (\<exists>gt srt. c = cmp gt srt ex)"
      using m'(4) set_update_cases [of _ _ "(rn, sn)" "cmp gt srt ex" m] by fastforce
    have b: "distinct (map fst m) \<longrightarrow> distinct (map fst m')"
      using m'(5) by (simp add: distinct_update)
    have c: "r = None \<longrightarrow> fst ` set m' = fst ` set m \<union> (\<lambda>(r, s, _). (r, s)) ` set (x # xs)"
      using m'(6) x by (auto simp: dom_update)
    from m'(1,2,3) fr a b c show ?thesis by auto
  qed
qed







lemmas ex_defs = init_study_def scan_folder_def ex_folder_def get_rec_names_def
  iter_computed_sorting_def iter_computed_names_def NpzSortingExtractor_def ex_cmp_def
  ex_gt_def ex_sorting1_def ex_sorting2_def check_rec_name_def get_ground_truth_def
  run_comparisons_def


section \<open>Aggregation leaves the object alone\<close>

lemma init_study_scanned: "is_scanned (init_study f)"
  by (simp add: init_study_def scan_folder_def)

lemma count_loop_frame:
  "is_scanned st \<Longrightarrow> fst (count_loop cn wd rd om st tb xs) = st"
proof (induction xs arbitrary: tb)
  case Nil
  then show ?case by simp
next
  case (Cons x xs)
  obtain rn sn srt where x: "x = (rn, sn, srt)" by (cases x)
  obtain g where g: "get_ground_truth st (Some rn) = (st, g)"
    using get_ground_truth_scanned [OF Cons.prems, of "Some rn"]
    by (cases "get_ground_truth st (Some rn)") auto
  show ?case using x g Cons by (auto split: sum.splits option.splits)
qed

lemma aggregate_count_units_frame:
  "is_scanned st \<Longrightarrow> fst (aggregate_count_units cn st wd rd om) = st"
  by (simp add: aggregate_count_units_def count_loop_frame Let_def split: option.splits)

text \<open>
  C10. On a scanned study (every constructed study is one) \<open>aggregate_count_units\<close>
  returns the object as it was, and \<open>aggregate_dataframes\<close> returns it unchanged
  without persistence and changed in nothing but the tables folder with persistence.
  \<open>aggregate_run_times\<close> and \<open>aggregate_performance_by_units\<close> assign no attribute
  and call no method of the object, so they are functions of the state that return
  only their table.
\<close>

theorem aggregation_frame:
  assumes "is_scanned st"
  shows "fst (aggregate_count_units cn st wd rd om) = st \<and>
         fst (aggregate_dataframes cn gp csv_rt csv_perf csv_count st False wd rd om) = st \<and>
         (\<exists>t. fst (aggregate_dataframes cn gp csv_rt csv_perf csv_count st True wd rd om)
                = st\<lparr> study_folder := (study_folder st)\<lparr> tables_dir := t \<rparr> \<rparr>)"
proof -
  have a: "fst (aggregate_count_units cn st wd rd om) = st"
    by (rule aggregate_count_units_frame [OF assms])
  obtain r where r: "aggregate_count_units cn st wd rd om = (st, r)"
    using a by (cases "aggregate_count_units cn st wd rd om") auto
  have b: "fst (aggregate_dataframes cn gp csv_rt csv_perf csv_count st False wd rd om) = st"
    using r by (auto simp: aggregate_dataframes_def Let_def split: sum.splits)
  have same: "st\<lparr> study_folder := (study_folder st)\<lparr> tables_dir := tables_dir (study_folder st) \<rparr> \<rparr> = st"
    by simp
  have c: "\<exists>t. fst (aggregate_dataframes cn gp csv_rt csv_perf csv_count st True wd rd om)
                = st\<lparr> study_folder := (study_folder st)\<lparr> tables_dir := t \<rparr> \<rparr>"
  proof (cases "fst (aggregate_dataframes cn gp csv_rt csv_perf csv_count st True wd rd om) = st")
    case True
    then show ?thesis using same by metis
  next
    case False
    then show ?thesis using r
      by (auto simp: aggregate_dataframes_def write_tables_def Let_def split: sum.splits)
  qed
  from a b c show ?thesis by blast
qed

theorem aggregation_frame_witness:
  "is_scanned ex_compared \<and>
   fst (aggregate_count_units ex_counters ex_compared None None None) = ex_compared \<and>
   fst (aggregate_dataframes ex_counters ex_gp (\<lambda>t. ''rt'') (\<lambda>t. ''perf'') (\<lambda>t. ''count'')
          ex_compared False None None None) = ex_compared \<and>
   (\<exists>t. fst (aggregate_dataframes ex_counters ex_gp (\<lambda>t. ''rt'') (\<lambda>t. ''perf'')
                 (\<lambda>t. ''count'') ex_compared True None None None)
          = ex_compared\<lparr> study_folder := (study_folder ex_compared)\<lparr> tables_dir := t \<rparr> \<rparr>)"
proof -
  have h: "is_scanned ex_compared"
    by (simp add: ex_compared_def ex_defs)
  from aggregation_frame [OF h, of ex_counters None None None ex_gp] h
  show ?thesis by simp
qed

section \<open>The metrics cache writes through\<close>












section \<open>The count table\<close>

lemma map_of_map_keyed:
  "map_of (map (\<lambda>(k, row). (k, f k row)) rows) k' = map_option (f k') (map_of rows k')"
  by (induction rows) auto

lemma row_keys_loc_set:
  "k \<in> set (row_keys tb) \<Longrightarrow>
   row_keys (loc_set k c v tb) = row_keys tb \<and> ct_columns (loc_set k c v tb) = ct_columns tb"
  by (auto simp: row_keys_def loc_set_def case_prod_unfold)

lemma in_row_keys_loc_set:
  "k \<in> set (row_keys tb) \<Longrightarrow> k \<in> set (row_keys (loc_set k c v tb))"
  using row_keys_loc_set [of k tb c v] by simp

lemma cell_at_loc_set:
  assumes "k \<in> set (row_keys tb)"
  shows "cell_at (loc_set k c v tb) k' c' =
           (if k' = k \<and> c' = c then Some v else cell_at tb k' c')"
proof -
  have rows: "ct_rows (loc_set k c v tb) =
      map (\<lambda>(k', row). (k', if k' = k then AList.update c v row else row)) (ct_rows tb)"
    using assms by (simp add: loc_set_def row_keys_def)
  from assms obtain r0 where "(k, r0) \<in> set (ct_rows tb)"
    by (auto simp: row_keys_def)
  then obtain row where row: "map_of (ct_rows tb) k = Some row"
    using weak_map_of_SomeI by fast
  show ?thesis
    unfolding cell_at_def rows map_of_map_keyed
    using row by (auto simp: update_conv' split: option.splits)
qed

lemma populated_loc_set:
  assumes "k \<in> set (row_keys tb)"
  shows "populated (loc_set k c (Count n) tb) k' c' = ((k' = k \<and> c' = c) \<or> populated tb k' c')"
  using cell_at_loc_set [OF assms] by (auto simp: populated_def)

lemma count_row_props:
  assumes "k \<in> set (row_keys tb)"
  shows "row_keys (count_row cn wd rd om flag k gt srt sc tb) = row_keys tb"
    and "ct_columns (count_row cn wd rd om flag k gt srt sc tb) = ct_columns tb"
    and "populated (count_row cn wd rd om flag k gt srt sc tb) k' c' =
           ((k' = k \<and> c' \<in> set (if flag = Some True
                                    then base_columns @ [''num_false_positive'', ''num_bad'']
                                    else base_columns))
            \<or> populated tb k' c')"
proof -
  define t1 where "t1 = loc_set k ''num_gt'' (Count (int (length (get_unit_ids gt)))) tb"
  define t2 where "t2 = loc_set k ''num_sorter'' (Count (int (length (get_unit_ids srt)))) t1"
  define t3 where "t3 = loc_set k ''num_well_detected'' (Count (count_well_detected_units cn sc wd)) t2"
  define t4 where "t4 = loc_set k ''num_redundant'' (Count (count_redundant_units cn sc rd)) t3"
  define t5 where "t5 = loc_set k ''num_overmerged'' (Count (count_overmerged_units cn sc om)) t4"
  define t6 where "t6 = loc_set k ''num_false_positive'' (Count (count_false_positive_units cn sc rd)) t5"
  define t7 where "t7 = loc_set k ''num_bad'' (Count (count_bad_units cn sc)) t6"
  have res: "count_row cn wd rd om flag k gt srt sc tb = (if flag = Some True then t7 else t5)"
    by (simp add: count_row_def Let_def t1_def t2_def t3_def t4_def t5_def t6_def t7_def)
  have k1: "k \<in> set (row_keys t1)" unfolding t1_def by (rule in_row_keys_loc_set [OF assms])
  have k2: "k \<in> set (row_keys t2)" unfolding t2_def by (rule in_row_keys_loc_set [OF k1])
  have k3: "k \<in> set (row_keys t3)" unfolding t3_def by (rule in_row_keys_loc_set [OF k2])
  have k4: "k \<in> set (row_keys t4)" unfolding t4_def by (rule in_row_keys_loc_set [OF k3])
  have k5: "k \<in> set (row_keys t5)" unfolding t5_def by (rule in_row_keys_loc_set [OF k4])
  have k6: "k \<in> set (row_keys t6)" unfolding t6_def by (rule in_row_keys_loc_set [OF k5])
  have r5: "row_keys t5 = row_keys tb \<and> ct_columns t5 = ct_columns tb"
    using row_keys_loc_set [OF assms] row_keys_loc_set [OF k1] row_keys_loc_set [OF k2]
      row_keys_loc_set [OF k3] row_keys_loc_set [OF k4]
    by (simp add: t1_def t2_def t3_def t4_def t5_def)
  have r7: "row_keys t7 = row_keys tb \<and> ct_columns t7 = ct_columns tb"
    using r5 row_keys_loc_set [OF k5] row_keys_loc_set [OF k6] by (simp add: t6_def t7_def)
  show "row_keys (count_row cn wd rd om flag k gt srt sc tb) = row_keys tb"
    using res r5 r7 by simp
  show "ct_columns (count_row cn wd rd om flag k gt srt sc tb) = ct_columns tb"
    using res r5 r7 by simp
  have q1: "populated t1 k' c' = ((k' = k \<and> c' = ''num_gt'') \<or> populated tb k' c')"
    unfolding t1_def by (rule populated_loc_set [OF assms])
  have q2: "populated t2 k' c' = ((k' = k \<and> c' = ''num_sorter'') \<or> populated t1 k' c')"
    unfolding t2_def by (rule populated_loc_set [OF k1])
  have q3: "populated t3 k' c' = ((k' = k \<and> c' = ''num_well_detected'') \<or> populated t2 k' c')"
    unfolding t3_def by (rule populated_loc_set [OF k2])
  have q4: "populated t4 k' c' = ((k' = k \<and> c' = ''num_redundant'') \<or> populated t3 k' c')"
    unfolding t4_def by (rule populated_loc_set [OF k3])
  have q5: "populated t5 k' c' = ((k' = k \<and> c' = ''num_overmerged'') \<or> populated t4 k' c')"
    unfolding t5_def by (rule populated_loc_set [OF k4])
  have q6: "populated t6 k' c' = ((k' = k \<and> c' = ''num_false_positive'') \<or> populated t5 k' c')"
    unfolding t6_def by (rule populated_loc_set [OF k5])
  have q7: "populated t7 k' c' = ((k' = k \<and> c' = ''num_bad'') \<or> populated t6 k' c')"
    unfolding t7_def by (rule populated_loc_set [OF k6])
  have p5: "populated t5 k' c' = ((k' = k \<and> c' \<in> set base_columns) \<or> populated tb k' c')"
    unfolding q5 q4 q3 q2 q1 base_columns_def by auto
  have p7: "populated t7 k' c' =
      ((k' = k \<and> c' \<in> set (base_columns @ [''num_false_positive'', ''num_bad''])) \<or> populated tb k' c')"
    unfolding q7 q6 p5 by auto
  show "populated (count_row cn wd rd om flag k gt srt sc tb) k' c' =
           ((k' = k \<and> c' \<in> set (if flag = Some True
                                    then base_columns @ [''num_false_positive'', ''num_bad'']
                                    else base_columns))
            \<or> populated tb k' c')"
    using res p5 p7 by simp
qed

lemma get_ground_truth_cong:
  assumes "is_scanned st" "is_scanned st'" "rec_names st' = rec_names st"
    "study_folder st' = study_folder st"
  shows "snd (get_ground_truth st' rn) = snd (get_ground_truth st rn)"
  using assms
  by (auto simp: get_ground_truth_def check_rec_name_def Let_def split: option.splits)

lemma get_ground_truth_scanned_pair:
  "is_scanned st \<Longrightarrow> get_ground_truth st rn = (st, snd (get_ground_truth st rn))"
  using get_ground_truth_scanned [of st rn] by (cases "get_ground_truth st rn") auto

lemma run_comparisons_loop_state:
  assumes "is_scanned st" and "run_comparisons_loop cmp ex st xs = (st', r)"
  shows "\<exists>c. st' = st\<lparr> comparisons := c \<rparr>"
  using assms
proof (induction xs arbitrary: st)
  case Nil
  then have "st' = st\<lparr> comparisons := comparisons st \<rparr>" by simp
  then show ?case by blast
next
  case (Cons x xs)
  obtain rn sn srt where x: "x = (rn, sn, srt)" by (cases x)
  note g = get_ground_truth_scanned_pair [OF Cons.prems(1), of "Some rn"]
  show ?case
  proof (cases "snd (get_ground_truth st (Some rn))")
    case (Inl e)
    with Cons.prems x g have "st' = st\<lparr> comparisons := comparisons st \<rparr>" by simp
    then show ?thesis by blast
  next
    case (Inr gt)
    show ?thesis
    proof (cases "comparisons st")
      case None
      with Cons.prems x g Inr have "st' = st\<lparr> comparisons := comparisons st \<rparr>" by simp
      then show ?thesis by blast
    next
      case (Some m)
      let ?st2 = "st\<lparr> comparisons := Some (AList.update (rn, sn) (cmp gt srt ex) m) \<rparr>"
      from Cons.prems x g Inr Some
      have loop: "run_comparisons_loop cmp ex ?st2 xs = (st', r)" by simp
      have sc: "is_scanned ?st2" using Cons.prems(1) by simp
      from Cons.IH [OF sc loop] obtain c where "st' = ?st2\<lparr> comparisons := c \<rparr>" by blast
      then have "st' = st\<lparr> comparisons := c \<rparr>" by simp
      then show ?thesis by blast
    qed
  qed
qed

lemma run_comparisons_loop_loads:
  assumes "is_scanned st" and "run_comparisons_loop cmp ex st xs = (st', None)"
  shows "\<forall>(r, s, srt) \<in> set xs. \<exists>gt. snd (get_ground_truth st (Some r)) = Inr gt"
  using assms
proof (induction xs arbitrary: st)
  case Nil
  then show ?case by simp
next
  case (Cons x xs)
  obtain rn sn srt where x: "x = (rn, sn, srt)" by (cases x)
  note g = get_ground_truth_scanned_pair [OF Cons.prems(1), of "Some rn"]
  show ?case
  proof (cases "snd (get_ground_truth st (Some rn))")
    case (Inl e)
    with Cons.prems x g show ?thesis by simp
  next
    case (Inr gt)
    show ?thesis
    proof (cases "comparisons st")
      case None
      with Cons.prems x g Inr show ?thesis by simp
    next
      case (Some m)
      let ?st2 = "st\<lparr> comparisons := Some (AList.update (rn, sn) (cmp gt srt ex) m) \<rparr>"
      from Cons.prems x g Inr Some
      have loop: "run_comparisons_loop cmp ex ?st2 xs = (st', None)" by simp
      have sc: "is_scanned ?st2" using Cons.prems(1) by simp
      have same: "\<And>rn'. snd (get_ground_truth ?st2 rn') = snd (get_ground_truth st rn')"
        by (rule get_ground_truth_cong [OF Cons.prems(1) sc]) simp_all
      have "\<forall>(r, s, srt) \<in> set xs. \<exists>gt. snd (get_ground_truth st (Some r)) = Inr gt"
        using Cons.IH [OF sc loop] by (auto simp: same)
      with x Inr show ?thesis by auto
    qed
  qed
qed

lemma count_loop_ok:
  assumes "is_scanned st" and "comparisons st = Some m"
    and "\<forall>(r, s, srt) \<in> set xs. (r, s) \<in> fst ` set m \<and>
           (\<exists>gt. snd (get_ground_truth st (Some r)) = Inr gt) \<and> (r, s) \<in> set (row_keys tb)"
  shows "\<exists>tb'. count_loop cn wd rd om st tb xs = (st, Inr tb') \<and>
           row_keys tb' = row_keys tb \<and> ct_columns tb' = ct_columns tb \<and>
           (\<forall>k c. populated tb k c \<longrightarrow> populated tb' k c) \<and>
           (\<forall>(r, s, srt) \<in> set xs.
              \<forall>c \<in> set (if exhaustive_gt st = Some True
                          then base_columns @ [''num_false_positive'', ''num_bad'']
                          else base_columns). populated tb' (r, s) c)"
  using assms(3)
proof (induction xs arbitrary: tb)
  case Nil
  then show ?case by simp
next
  case (Cons x xs)
  obtain rn sn srt where x: "x = (rn, sn, srt)" by (cases x)
  note g = get_ground_truth_scanned_pair [OF assms(1), of "Some rn"]
  from Cons.prems x obtain gt where gt: "snd (get_ground_truth st (Some rn)) = Inr gt"
    by auto
  from Cons.prems x have "(rn, sn) \<in> fst ` set m" by simp
  then obtain sc where sc: "map_of m (rn, sn) = Some sc"
    using weak_map_of_SomeI by fastforce
  from Cons.prems x have key: "(rn, sn) \<in> set (row_keys tb)" by simp
  let ?tb1 = "count_row cn wd rd om (exhaustive_gt st) (rn, sn) gt srt sc tb"
  note cr = count_row_props [OF key, of cn wd rd om "exhaustive_gt st" gt srt sc]
  have step: "count_loop cn wd rd om st tb (x # xs) = count_loop cn wd rd om st ?tb1 xs"
    using x g gt sc assms(2) by simp
  have pre: "\<forall>(r, s, srt) \<in> set xs. (r, s) \<in> fst ` set m \<and>
           (\<exists>gt. snd (get_ground_truth st (Some r)) = Inr gt) \<and> (r, s) \<in> set (row_keys ?tb1)"
    using Cons.prems cr(1) by auto
  from Cons.IH [OF pre] obtain tb' where
    tb': "count_loop cn wd rd om st ?tb1 xs = (st, Inr tb')"
         "row_keys tb' = row_keys ?tb1" "ct_columns tb' = ct_columns ?tb1"
         "\<forall>k c. populated ?tb1 k c \<longrightarrow> populated tb' k c"
         "\<forall>(r, s, srt) \<in> set xs.
              \<forall>c \<in> set (if exhaustive_gt st = Some True
                          then base_columns @ [''num_false_positive'', ''num_bad'']
                          else base_columns). populated tb' (r, s) c"
    by blast
  have keep: "\<forall>k c. populated tb k c \<longrightarrow> populated tb' k c"
    using tb'(4) cr(3) by blast
  have here: "\<forall>c \<in> set (if exhaustive_gt st = Some True
                          then base_columns @ [''num_false_positive'', ''num_bad'']
                          else base_columns). populated tb' (rn, sn) c"
    using tb'(4) cr(3) by blast
  from step tb'(1) tb'(2) tb'(3) cr(1) cr(2) keep here tb'(5) x
  show ?case by simp
qed

lemma row_keys_DataFrame: "row_keys (DataFrame idx cols) = idx"
  by (simp add: row_keys_def DataFrame_def comp_def)

lemma row_keys_set_column: "row_keys (set_column c v tb) = row_keys tb"
  by (simp add: row_keys_def set_column_def comp_def case_prod_unfold)

lemma initial_columns:
  "ct_columns (set_column ''num_bad'' PyNone
      (set_column ''num_false_positive'' PyNone (DataFrame idx base_columns)))
   = base_columns @ [''num_false_positive'', ''num_bad'']"
  by (simp add: set_column_def DataFrame_def base_columns_def)

lemma names_of_sortings:
  "set (iter_computed_names f) = (\<lambda>(r, s, _). (r, s)) ` set (iter_computed_sorting f)"
  by (simp add: iter_computed_names_def iter_computed_sorting_def)

lemma aggregate_count_units_in_sync:
  assumes sc: "is_scanned st0"
      and sync: "computed_names st0 = iter_computed_names (study_folder st0)"
      and run: "run_comparisons cmp ex st0 = (st, None)"
  shows "\<exists>tb. aggregate_count_units cn st wd rd om = (st, Inr tb) \<and>
           row_keys tb = iter_computed_names (study_folder st0) \<and>
           ct_columns tb = (if ex then base_columns @ [''num_false_positive'', ''num_bad'']
                            else base_columns) \<and>
           (\<forall>k \<in> set (row_keys tb). \<forall>c \<in> set (ct_columns tb). populated tb k c)"
proof -
  let ?xs = "iter_computed_sorting (study_folder st0)"
  let ?s0 = "st0\<lparr> comparisons := Some [] \<rparr>"
  let ?cols = "if ex then base_columns @ [''num_false_positive'', ''num_bad''] else base_columns"
  obtain s r where l: "run_comparisons_loop cmp ex ?s0 ?xs = (s, r)"
    by (cases "run_comparisons_loop cmp ex ?s0 ?xs")
  from run l have r: "r = None" and st: "st = s\<lparr> exhaustive_gt := Some ex \<rparr>"
    by (auto simp: run_comparisons_def split: option.splits)
  have sc0: "is_scanned ?s0" using sc by simp
  from run_comparisons_loop_state [OF sc0 l] obtain c where s: "s = st0\<lparr> comparisons := c \<rparr>"
    by auto
  have c0: "comparisons ?s0 = Some []" by simp
  from run_comparisons_loop_inv [OF l c0] r obtain m where
    m: "comparisons s = Some m"
       "fst ` set m = (\<lambda>(r, s, _). (r, s)) ` set ?xs"
    by auto
  have st_eq: "st = st0\<lparr> comparisons := Some m, exhaustive_gt := Some ex \<rparr>"
    using st s m(1) by simp
  have sc_st: "is_scanned st" and cmp_st: "comparisons st = Some m"
    and fl_st: "exhaustive_gt st = Some ex" and f_st: "study_folder st = study_folder st0"
    and cn_st: "computed_names st = computed_names st0"
    using st_eq sc by simp_all
  have same: "\<And>rn. snd (get_ground_truth st rn) = snd (get_ground_truth ?s0 rn)"
    by (rule get_ground_truth_cong [OF sc0 sc_st]) (simp_all add: st_eq)
  from run_comparisons_loop_loads [OF sc0] l r
  have loads: "\<forall>(r, s, srt) \<in> set ?xs. \<exists>gt. snd (get_ground_truth st (Some r)) = Inr gt"
    by (auto simp: same)
  define tb1 where "tb1 = (if exhaustive_gt st = Some True
                      then set_column ''num_bad'' PyNone
                             (set_column ''num_false_positive'' PyNone
                                (DataFrame (computed_names st) base_columns))
                      else DataFrame (computed_names st) base_columns)"
  have keys1: "row_keys tb1 = iter_computed_names (study_folder st0)"
    by (simp add: tb1_def row_keys_set_column row_keys_DataFrame cn_st sync)
  have cols1: "ct_columns tb1 = ?cols"
    using fl_st by (simp add: tb1_def initial_columns) (simp add: DataFrame_def)
  have pre: "\<forall>(r, s, srt) \<in> set ?xs. (r, s) \<in> fst ` set m \<and>
           (\<exists>gt. snd (get_ground_truth st (Some r)) = Inr gt) \<and> (r, s) \<in> set (row_keys tb1)"
  proof (clarify, intro conjI)
    fix r s srt
    assume el: "(r, s, srt) \<in> set ?xs"
    show "(r, s) \<in> fst ` set m" unfolding m(2) using el by force
    show "\<exists>gt. snd (get_ground_truth st (Some r)) = Inr gt" using loads el by fast
    show "(r, s) \<in> set (row_keys tb1)" unfolding keys1 names_of_sortings using el by force
  qed
  from count_loop_ok [OF sc_st cmp_st pre, of cn wd rd om] obtain tb where
    tb: "count_loop cn wd rd om st tb1 ?xs = (st, Inr tb)"
        "row_keys tb = row_keys tb1" "ct_columns tb = ct_columns tb1"
        "\<forall>(r, s, srt) \<in> set ?xs.
              \<forall>c \<in> set (if exhaustive_gt st = Some True
                          then base_columns @ [''num_false_positive'', ''num_bad'']
                          else base_columns). populated tb (r, s) c"
    by blast
  have agg: "aggregate_count_units cn st wd rd om = count_loop cn wd rd om st tb1 ?xs"
    using cmp_st f_st by (simp add: aggregate_count_units_def Let_def tb1_def)
  have pop: "\<forall>k \<in> set (row_keys tb). \<forall>c \<in> set (ct_columns tb). populated tb k c"
  proof (intro ballI)
    fix k c
    assume k: "k \<in> set (row_keys tb)" and c: "c \<in> set (ct_columns tb)"
    from k obtain r s srt where el: "(r, s, srt) \<in> set ?xs" and k': "k = (r, s)"
      unfolding tb(2) keys1 names_of_sortings by auto
    from c have c': "c \<in> set (if exhaustive_gt st = Some True
                          then base_columns @ [''num_false_positive'', ''num_bad'']
                          else base_columns)"
      unfolding tb(3) cols1 fl_st by simp
    from tb(4) el have "\<forall>c \<in> set (if exhaustive_gt st = Some True
                          then base_columns @ [''num_false_positive'', ''num_bad'']
                          else base_columns). populated tb (r, s) c"
      by fast
    with c' k' show "populated tb k c" by blast
  qed
  from agg tb(1,2,3) keys1 cols1 pop show ?thesis by simp
qed

text \<open>
  C5. On a scanned study whose pair list agrees with the storage, with each output listed
  once, after a \<open>run_comparisons\<close> that returned: \<open>aggregate_count_units\<close> returns a
  table whose rows are exactly the discovered pairs, one row each, keyed by (case,
  engine). With the exhaustive flag the columns are the five base columns followed by
  \<open>num_false_positive\<close> and \<open>num_bad\<close>, without it only the five base columns, and
  in both cases every cell of every row holds a count. The agreement of pair list and
  storage is needed: the rows come from the pair list as scanned, the cells from the
  storage as it is now.
\<close>

theorem aggregate_count_units_rows:
  assumes "is_scanned st0"
      and "computed_names st0 = iter_computed_names (study_folder st0)"
      and "distinct (iter_computed_names (study_folder st0))"
      and "run_comparisons cmp ex st0 = (st, None)"
  shows "\<exists>tb. aggregate_count_units cn st wd rd om = (st, Inr tb) \<and>
           row_keys tb = computed_names st \<and> distinct (row_keys tb) \<and>
           set (row_keys tb) = set (iter_computed_names (study_folder st)) \<and>
           (ex \<longrightarrow> ct_columns tb = base_columns @ [''num_false_positive'', ''num_bad''] \<and>
              (\<forall>k \<in> set (row_keys tb). \<forall>c \<in> set (ct_columns tb).
                 \<exists>n. cell_at tb k c = Some (Count n))) \<and>
           (\<not> ex \<longrightarrow> ct_columns tb = base_columns \<and>
              ''num_false_positive'' \<notin> set (ct_columns tb) \<and>
              ''num_bad'' \<notin> set (ct_columns tb) \<and>
              (\<forall>k \<in> set (row_keys tb). \<forall>c \<in> set (ct_columns tb).
                 \<exists>n. cell_at tb k c = Some (Count n)))"
proof -
  from aggregate_count_units_in_sync [OF assms(1,2,4), of cn wd rd om] obtain tb where
    tb: "aggregate_count_units cn st wd rd om = (st, Inr tb)"
        "row_keys tb = iter_computed_names (study_folder st0)"
        "ct_columns tb = (if ex then base_columns @ [''num_false_positive'', ''num_bad'']
                            else base_columns)"
        "\<forall>k \<in> set (row_keys tb). \<forall>c \<in> set (ct_columns tb). populated tb k c"
    by blast
  have fr: "study_folder st = study_folder st0 \<and> computed_names st = computed_names st0"
  proof -
    obtain s r where l: "run_comparisons_loop cmp ex (st0\<lparr> comparisons := Some [] \<rparr>)
        (iter_computed_sorting (study_folder st0)) = (s, r)"
      by (cases "run_comparisons_loop cmp ex (st0\<lparr> comparisons := Some [] \<rparr>)
        (iter_computed_sorting (study_folder st0))")
    have "is_scanned (st0\<lparr> comparisons := Some [] \<rparr>)" using assms(1) by simp
    from run_comparisons_loop_state [OF this l] obtain c where
      "s = st0\<lparr> comparisons := c \<rparr>" by auto
    moreover from assms(4) l have "st = s\<lparr> exhaustive_gt := Some ex \<rparr>"
      by (auto simp: run_comparisons_def split: option.splits)
    ultimately show ?thesis by simp
  qed
  have absent: "''num_false_positive'' \<notin> set base_columns \<and> ''num_bad'' \<notin> set base_columns"
    by (simp add: base_columns_def)
  have cells: "\<forall>k \<in> set (row_keys tb). \<forall>c \<in> set (ct_columns tb).
                 \<exists>n. cell_at tb k c = Some (Count n)"
    using tb(4) by (simp add: populated_def)
  have k1: "row_keys tb = computed_names st" using tb(2) fr assms(2) by simp
  have k2: "distinct (row_keys tb)" using tb(2) assms(3) by simp
  have k3: "set (row_keys tb) = set (iter_computed_names (study_folder st))"
    using tb(2) fr by simp
  have colsT: "ex \<Longrightarrow> ct_columns tb = base_columns @ [''num_false_positive'', ''num_bad'']"
    using tb(3) by simp
  have colsF: "\<not> ex \<Longrightarrow> ct_columns tb = base_columns" using tb(3) by simp
  have abs: "\<not> ex \<Longrightarrow> ''num_false_positive'' \<notin> set (ct_columns tb) \<and>
                          ''num_bad'' \<notin> set (ct_columns tb)"
    using colsF absent by simp
  show ?thesis using tb(1) k1 k2 k3 cells colsT colsF abs by blast
qed

theorem aggregate_count_units_rows_witness:
  "is_scanned (init_study ex_folder :: (nat \<times> nat \<times> bool) study) \<and>
   computed_names (init_study ex_folder :: (nat \<times> nat \<times> bool) study)
     = iter_computed_names (study_folder (init_study ex_folder :: (nat \<times> nat \<times> bool) study)) \<and>
   distinct (iter_computed_names
     (study_folder (init_study ex_folder :: (nat \<times> nat \<times> bool) study))) \<and>
   run_comparisons ex_cmp True (init_study ex_folder) = (ex_compared, None) \<and>
   (\<exists>tb. aggregate_count_units ex_counters ex_compared None None None = (ex_compared, Inr tb) \<and>
        row_keys tb = [(''rec0'', ''e2''), (''rec0'', ''e1'')] \<and>
        ct_columns tb = base_columns @ [''num_false_positive'', ''num_bad''] \<and>
        (\<forall>k \<in> set (row_keys tb). \<forall>c \<in> set (ct_columns tb).
           \<exists>n. cell_at tb k c = Some (Count n)))"
proof -
  let ?st0 = "init_study ex_folder :: (nat \<times> nat \<times> bool) study"
  have h1: "is_scanned ?st0" by (rule init_study_scanned)
  have h2: "computed_names ?st0 = iter_computed_names (study_folder ?st0)"
    by (simp add: init_study_def scan_folder_def)
  have h3: "distinct (iter_computed_names (study_folder ?st0))"
    by (simp add: init_study_def scan_folder_def iter_computed_names_def ex_folder_def)
  have h4: "run_comparisons ex_cmp True ?st0 = (ex_compared, None)"
    by (simp add: ex_compared_def ex_defs)
  have names: "computed_names ex_compared = [(''rec0'', ''e2''), (''rec0'', ''e1'')]"
    by (simp add: ex_compared_def ex_defs)
  from aggregate_count_units_rows [OF h1 h2 h3 h4, of ex_counters None None None]
  show ?thesis using h1 h2 h3 h4 names by auto
qed

text \<open>
  Without that agreement the claim is false: on the study that was scanned before the
  storage lost the output of \<open>e1\<close>, \<open>run_comparisons\<close> returns and the table
  still has a row for \<open>e1\<close>, which holds no count in any column.
\<close>

theorem aggregate_count_units_stale_counterexample:
  "is_scanned ex_stale \<and>
   computed_names ex_stale = [(''rec0'', ''e2''), (''rec0'', ''e1'')] \<and>
   iter_computed_names (study_folder ex_stale) = [(''rec0'', ''e2'')] \<and>
   run_comparisons ex_cmp True ex_stale = (ex_stale_compared, None) \<and>
   result_column ''num_gt''
       (aggregate_count_units ex_counters ex_stale_compared None None None)
     = Inr [((''rec0'', ''e2''), Some (Count 3)), ((''rec0'', ''e1''), Some NaN)] \<and>
   result_column ''num_bad''
       (aggregate_count_units ex_counters ex_stale_compared None None None)
     = Inr [((''rec0'', ''e2''), Some (Count 0)), ((''rec0'', ''e1''), Some PyNone)]"
proof -
  have a: "is_scanned ex_stale" by (simp add: ex_stale_def init_study_scanned)
  have b: "computed_names ex_stale = [(''rec0'', ''e2''), (''rec0'', ''e1'')]"
    by (simp add: ex_stale_def init_study_def scan_folder_def iter_computed_names_def ex_folder_def)
  have c: "iter_computed_names (study_folder ex_stale) = [(''rec0'', ''e2'')]"
    by (simp add: ex_stale_def iter_computed_names_def)
  have d: "run_comparisons ex_cmp True ex_stale = (ex_stale_compared, None)"
    by (simp add: ex_stale_compared_def ex_stale_def ex_defs)
  have e: "result_column ''num_gt''
       (aggregate_count_units ex_counters ex_stale_compared None None None)
     = Inr [((''rec0'', ''e2''), Some (Count 3)), ((''rec0'', ''e1''), Some NaN)]"
    by code_simp
  have f: "result_column ''num_bad''
       (aggregate_count_units ex_counters ex_stale_compared None None None)
     = Inr [((''rec0'', ''e2''), Some (Count 0)), ((''rec0'', ''e1''), Some PyNone)]"
    by code_simp
  from a b c d e f show ?thesis by simp
qed

section \<open>Row order of the aggregated tables\<close>

lemma perf_loop_closed:
  assumes "\<forall>(r, s, srt) \<in> set xs. (r, s) \<in> fst ` set m"
  shows "perf_loop gp m xs =
           Inr (map (\<lambda>(r, s, srt). map (\<lambda>(u, p). ((r, s, u), p)) (gp (the (map_of m (r, s))))) xs)"
  using assms
proof (induction xs)
  case Nil
  then show ?case by simp
next
  case (Cons x xs)
  obtain r s srt where x: "x = (r, s, srt)" by (cases x)
  from Cons.prems x have "(r, s) \<in> fst ` set m" by simp
  then obtain sc where sc: "map_of m (r, s) = Some sc"
    using weak_map_of_SomeI by fastforce
  from Cons.prems have "\<forall>(r, s, srt) \<in> set xs. (r, s) \<in> fst ` set m" by simp
  from Cons.IH [OF this] x sc show ?case by simp
qed

text \<open>
  C6. The tables list their rows in discovery order; nothing sorts them. After a
  \<open>run_comparisons\<close> that returned on a scanned study whose pair list agrees with the
  storage, \<open>count_units\<close> has its rows in the order in which the storage lists the
  pairs, \<open>perf_by_units\<close> is the concatenation of the per-pair blocks of unit rows in
  that same order (and \<open>ValueError\<close> when there is no pair), and \<open>run_times\<close> is what
  \<open>collect_run_times\<close> returns.
\<close>

theorem tables_follow_discovery_order:
  assumes sc: "is_scanned st0"
      and sync: "computed_names st0 = iter_computed_names (study_folder st0)"
      and run: "run_comparisons cmp ex st0 = (st, None)"
  shows "(\<exists>tb. aggregate_count_units cn st wd rd om = (st, Inr tb) \<and>
              row_keys tb = iter_computed_names (study_folder st)) \<and>
         (\<exists>m. comparisons st = Some m \<and>
              aggregate_performance_by_units gp st =
                (if iter_computed_sorting (study_folder st) = [] then Inl ValueError
                 else Inr (concat (map (\<lambda>(r, s, srt).
                        map (\<lambda>(u, p). ((r, s, u), p)) (gp (the (map_of m (r, s)))))
                      (iter_computed_sorting (study_folder st)))))) \<and>
         aggregate_run_times st = Inr (collect_run_times (study_folder st))"
proof -
  let ?xs = "iter_computed_sorting (study_folder st0)"
  obtain s r where l: "run_comparisons_loop cmp ex (st0\<lparr> comparisons := Some [] \<rparr>) ?xs = (s, r)"
    by (cases "run_comparisons_loop cmp ex (st0\<lparr> comparisons := Some [] \<rparr>) ?xs")
  from run l have r: "r = None" and st: "st = s\<lparr> exhaustive_gt := Some ex \<rparr>"
    by (auto simp: run_comparisons_def split: option.splits)
  have c0: "comparisons (st0\<lparr> comparisons := Some [] \<rparr>) = Some []" by simp
  from run_comparisons_loop_inv [OF l c0] r obtain m where
    m: "comparisons s = Some m" "study_folder s = study_folder st0"
       "fst ` set m = (\<lambda>(r, s, _). (r, s)) ` set ?xs"
    by auto
  have f: "study_folder st = study_folder st0" and cm: "comparisons st = Some m"
    using st m by simp_all
  from aggregate_count_units_in_sync [OF sc sync run, of cn wd rd om] f
  have a: "\<exists>tb. aggregate_count_units cn st wd rd om = (st, Inr tb) \<and>
              row_keys tb = iter_computed_names (study_folder st)"
    by auto
  have keys: "\<forall>(r, s, srt) \<in> set ?xs. (r, s) \<in> fst ` set m"
    unfolding m(3) by force
  have b: "aggregate_performance_by_units gp st =
                (if iter_computed_sorting (study_folder st) = [] then Inl ValueError
                 else Inr (concat (map (\<lambda>(r, s, srt).
                        map (\<lambda>(u, p). ((r, s, u), p)) (gp (the (map_of m (r, s)))))
                      (iter_computed_sorting (study_folder st)))))"
    unfolding aggregate_performance_by_units_def cm f
    by (simp add: perf_loop_closed [OF keys])
  have c: "aggregate_run_times st = Inr (collect_run_times (study_folder st))"
    by (simp add: aggregate_run_times_def)
  from a b c cm show ?thesis by blast
qed

theorem tables_follow_discovery_order_witness:
  "is_scanned (init_study ex_folder_swapped :: (nat \<times> nat \<times> bool) study) \<and>
   computed_names (init_study ex_folder_swapped :: (nat \<times> nat \<times> bool) study)
     = iter_computed_names
         (study_folder (init_study ex_folder_swapped :: (nat \<times> nat \<times> bool) study)) \<and>
   run_comparisons ex_cmp True (init_study ex_folder_swapped) = (ex_compared_swapped, None) \<and>
   (\<exists>tb. aggregate_count_units ex_counters ex_compared_swapped None None None
            = (ex_compared_swapped, Inr tb) \<and>
         row_keys tb = iter_computed_names (study_folder ex_compared_swapped)) \<and>
   aggregate_run_times ex_compared_swapped
     = Inr (collect_run_times (study_folder ex_compared_swapped))"
proof -
  let ?st0 = "init_study ex_folder_swapped :: (nat \<times> nat \<times> bool) study"
  have h1: "is_scanned ?st0" by (rule init_study_scanned)
  have h2: "computed_names ?st0 = iter_computed_names (study_folder ?st0)"
    by (simp add: init_study_def scan_folder_def)
  have h3: "run_comparisons ex_cmp True ?st0 = (ex_compared_swapped, None)"
    by (simp add: ex_compared_swapped_def ex_folder_swapped_def ex_defs)
  from tables_follow_discovery_order [OF h1 h2 h3, of ex_counters None None None ex_gp]
  show ?thesis using h1 h2 h3 by blast
qed

text \<open>
  The claim that equal contents discovered in different orders give row-for-row identical
  tables is false: the two example folders hold the same outputs, listed in opposite
  orders, and their \<open>count_units\<close> tables list the rows in opposite orders.
\<close>

theorem discovery_order_counterexample:
  "set (sortings_dir ex_folder_swapped) = set (sortings_dir ex_folder) \<and>
   ex_folder_swapped\<lparr> sortings_dir := sortings_dir ex_folder \<rparr> = ex_folder \<and>
   map_sum id row_keys (snd (aggregate_count_units ex_counters ex_compared None None None))
     = Inr [(''rec0'', ''e2''), (''rec0'', ''e1'')] \<and>
   map_sum id row_keys
       (snd (aggregate_count_units ex_counters ex_compared_swapped None None None))
     = Inr [(''rec0'', ''e1''), (''rec0'', ''e2'')]"
proof -
  let ?a = "init_study ex_folder :: (nat \<times> nat \<times> bool) study"
  let ?b = "init_study ex_folder_swapped :: (nat \<times> nat \<times> bool) study"
  have a1: "is_scanned ?a" and b1: "is_scanned ?b" by (rule init_study_scanned)+
  have a2: "computed_names ?a = iter_computed_names (study_folder ?a)"
    and b2: "computed_names ?b = iter_computed_names (study_folder ?b)"
    by (simp_all add: init_study_def scan_folder_def)
  have a3: "run_comparisons ex_cmp True ?a = (ex_compared, None)"
    by (simp add: ex_compared_def ex_defs)
  have b3: "run_comparisons ex_cmp True ?b = (ex_compared_swapped, None)"
    by (simp add: ex_compared_swapped_def ex_folder_swapped_def ex_defs)
  have na: "iter_computed_names (study_folder ?a) = [(''rec0'', ''e2''), (''rec0'', ''e1'')]"
    by (simp add: init_study_def scan_folder_def iter_computed_names_def ex_folder_def)
  have nb: "iter_computed_names (study_folder ?b) = [(''rec0'', ''e1''), (''rec0'', ''e2'')]"
    by (simp add: init_study_def scan_folder_def iter_computed_names_def ex_folder_def
        ex_folder_swapped_def)
  from aggregate_count_units_in_sync [OF a1 a2 a3, of ex_counters None None None] na
  have ta: "map_sum id row_keys (snd (aggregate_count_units ex_counters ex_compared None None None))
     = Inr [(''rec0'', ''e2''), (''rec0'', ''e1'')]"
    by auto
  from aggregate_count_units_in_sync [OF b1 b2 b3, of ex_counters None None None] nb
  have tb: "map_sum id row_keys
       (snd (aggregate_count_units ex_counters ex_compared_swapped None None None))
     = Inr [(''rec0'', ''e1''), (''rec0'', ''e2'')]"
    by auto
  have same: "set (sortings_dir ex_folder_swapped) = set (sortings_dir ex_folder)"
    by (auto simp: ex_folder_swapped_def ex_folder_def)
  have rest: "ex_folder_swapped\<lparr> sortings_dir := sortings_dir ex_folder \<rparr> = ex_folder"
    by (simp add: ex_folder_swapped_def)
  from ta tb same rest show ?thesis by blast
qed

end
